theory Spec2Isabelle
  imports Complex_Main
begin

section \<open>Shared types (types.ts)\<close>

text \<open>
  JavaScript numbers are modelled as mathematical reals: rounding, infinities and NaN are
  outside the model. Every \<open>Math.random()\<close> and \<open>performance.now()\<close> reading is an
  explicit argument of the function that takes it.
\<close>

datatype TreeState = CHAOS | FORMED

text \<open>The mutable ref written by the hand controller; \<open>None\<close> is JavaScript's \<open>null\<close>.\<close>

record InteractionRef =
  rotationVelocity :: real
  zoomVelocity :: real
  triggerFocus :: bool
  targetMode :: "TreeState option"

text \<open>The initial value of the ref, as \<open>App\<close> creates it.\<close>

definition initialRef :: InteractionRef where
  "initialRef = \<lparr>rotationVelocity = 0, zoomVelocity = 0, triggerFocus = False, targetMode = None\<rparr>"

section \<open>Gesture derivation (HandController.tsx, predict)\<close>

record Landmark =
  lx :: real
  ly :: real

text \<open>
  A detected hand is MediaPipe's array of 21 landmarks; the code reads the indices
  0, 4, 8, 12, 16 and 20 only.
\<close>

type_synonym Hand = "nat \<Rightarrow> Landmark"

definition hypot :: "real \<Rightarrow> real \<Rightarrow> real" where
  "hypot a b = sqrt (a * a + b * b)"

text \<open>The three refs of the gesture state.\<close>

record GestureState =
  lastPinchTime :: real
  pinchCount :: int
  isPinching :: bool

definition initialGesture :: GestureState where
  "initialGesture = \<lparr>lastPinchTime = 0, pinchCount = 0, isPinching = False\<rparr>"

definition avgDist :: "Hand \<Rightarrow> real" where
  "avgDist landmarks =
     (let wrist = landmarks 0;
          tips = map landmarks [4, 8, 12, 16, 20]
      in foldl (\<lambda>acc tip. acc + hypot (lx tip - lx wrist) (ly tip - ly wrist)) 0 tips / 5)"

definition pinchDist :: "Hand \<Rightarrow> real" where
  "pinchDist landmarks =
     (let thumbTip = landmarks 4; indexTip = landmarks 8
      in hypot (lx thumbTip - lx indexTip) (ly thumbTip - ly indexTip))"

text \<open>
  The bookkeeping of a pinch that has just started, up to the assignment of
  \<open>lastPinchTime\<close>: the counter before it is compared with 2.
\<close>

definition countPinch :: "real \<Rightarrow> GestureState \<Rightarrow> GestureState" where
  "countPinch now g =
     (let g1 = g\<lparr>isPinching := True\<rparr>;
          g2 = (if now - lastPinchTime g1 < 500
                then g1\<lparr>pinchCount := pinchCount g1 + 1\<rparr>
                else g1\<lparr>pinchCount := 1\<rparr>)
      in g2\<lparr>lastPinchTime := now\<rparr>)"

definition pinchStart :: "real \<Rightarrow> GestureState \<times> InteractionRef \<Rightarrow> GestureState \<times> InteractionRef" where
  "pinchStart now s =
     (let g = countPinch now (fst s)
      in if pinchCount g = 2
         then (g\<lparr>pinchCount := 0\<rparr>, (snd s)\<lparr>triggerFocus := True\<rparr>)
         else (g, snd s))"

text \<open>The body of \<open>results.landmarks.forEach\<close>, for one hand, without the drawing.\<close>

definition processHand :: "real \<Rightarrow> Hand \<Rightarrow> GestureState \<times> InteractionRef \<Rightarrow> GestureState \<times> InteractionRef" where
  "processHand now landmarks s =
     (let g = fst s;
          i1 = (snd s)\<lparr>targetMode :=
                 (if avgDist landmarks < 0.2 then Some FORMED
                  else if avgDist landmarks > 0.4 then Some CHAOS
                  else None)\<rparr>;
          s2 = (if pinchDist landmarks < 0.05
                then (let s1 = (if \<not> isPinching g then pinchStart now (g, i1) else (g, i1))
                      in (fst s1, (snd s1)\<lparr>rotationVelocity := (lx (landmarks 0) - 0.5) * 0.1\<rparr>))
                else (g\<lparr>isPinching := False\<rparr>, i1\<lparr>rotationVelocity := 0\<rparr>))
      in (fst s2, (snd s2)\<lparr>zoomVelocity :=
                 (if ly (landmarks 0) < 0.3 then 0.05
                  else if ly (landmarks 0) > 0.7 then - 0.05
                  else 0)\<rparr>))"

text \<open>
  One call of \<open>predict\<close>. \<open>NotReady\<close> is a call that returns before detection (no
  landmarker, no canvas context) or skips it (the video has no size yet); \<open>Detected hs\<close>
  is a call whose detection found the hands \<open>hs\<close>, each paired with the clock reading
  available while it is processed.
\<close>

datatype Frame = NotReady | Detected "(real \<times> Hand) list"

definition processHands :: "GestureState \<times> InteractionRef \<Rightarrow> (real \<times> Hand) list \<Rightarrow> GestureState \<times> InteractionRef" where
  "processHands s hs = foldl (\<lambda>st nh. processHand (fst nh) (snd nh) st) s hs"

fun predict :: "Frame \<Rightarrow> GestureState \<times> InteractionRef \<Rightarrow> GestureState \<times> InteractionRef" where
  "predict NotReady s = s"
| "predict (Detected []) s = (fst s, (snd s)\<lparr>rotationVelocity := 0, zoomVelocity := 0\<rparr>)"
| "predict (Detected (h # hs)) s = processHands s (h # hs)"

section \<open>Mode confirmation (App, toggleState and the 100 ms poll)\<close>

text \<open>
  The body of the interval callback: the argument \<open>setTreeState\<close> is called with, or
  \<open>None\<close> when it is not called. Both \<open>TreeState\<close> values are non-empty strings, so
  the test \<open>target &&\<close> is the test against \<open>null\<close>.
\<close>

definition modePoll :: "InteractionRef \<Rightarrow> TreeState \<Rightarrow> TreeState option" where
  "modePoll i treeState =
     (case targetMode i of
        None \<Rightarrow> None
      | Some target \<Rightarrow> if target \<noteq> treeState then Some target else None)"

definition toggleState :: "TreeState \<Rightarrow> TreeState" where
  "toggleState prev = (if prev = FORMED then CHAOS else FORMED)"

text \<open>
  The application: the committed mode, the gesture refs and the shared ref. Its events
  are a call of \<open>predict\<close>, an expiry of the poll interval and a click on the toggle button.
\<close>

record App =
  treeState :: TreeState
  gestureState :: GestureState
  interaction :: InteractionRef

datatype AppEvent = Predict Frame | Poll | Toggle

fun appStep :: "App \<Rightarrow> AppEvent \<Rightarrow> App" where
  "appStep a (Predict f) =
     (let s = predict f (gestureState a, interaction a)
      in a\<lparr>gestureState := fst s, interaction := snd s\<rparr>)"
| "appStep a Poll =
     (case modePoll (interaction a) (treeState a) of
        None \<Rightarrow> a
      | Some target \<Rightarrow> a\<lparr>treeState := target\<rparr>)"
| "appStep a Toggle = a\<lparr>treeState := toggleState (treeState a)\<rparr>"

definition appRun :: "App \<Rightarrow> AppEvent list \<Rightarrow> App" where
  "appRun a evs = foldl appStep a evs"

text \<open>The number of mode changes the poll commits along a run.\<close>

fun commits :: "App \<Rightarrow> AppEvent list \<Rightarrow> nat" where
  "commits a [] = 0"
| "commits a (Poll # evs) =
     (case modePoll (interaction a) (treeState a) of None \<Rightarrow> 0 | Some target \<Rightarrow> 1)
       + commits (appStep a Poll) evs"
| "commits a (Predict f # evs) = commits (appStep a (Predict f)) evs"
| "commits a (Toggle # evs) = commits (appStep a Toggle) evs"

definition polls :: "AppEvent list \<Rightarrow> nat" where
  "polls evs = length (filter (\<lambda>ev. ev = Poll) evs)"

section \<open>Focus toggle (Experience.tsx, LuxuryTree useFrame)\<close>

definition PHOTO_COUNT :: int where
  "PHOTO_COUNT = 20"

text \<open>
  The first block of the frame callback, on the pair of the React state \<open>focusId\<close> and
  the shared ref; \<open>rnd\<close> is the \<open>Math.random()\<close> reading. The callback is taken to see
  the \<open>focusId\<close> that the last \<open>setFocusId\<close> stored.
\<close>

definition focusBlock :: "real \<Rightarrow> int option \<times> InteractionRef \<Rightarrow> int option \<times> InteractionRef" where
  "focusBlock rnd s =
     (if triggerFocus (snd s)
      then ((if fst s = None then Some \<lfloor>rnd * of_int PHOTO_COUNT\<rfloor> else None),
            (snd s)\<lparr>triggerFocus := False\<rparr>)
      else s)"

text \<open>
  A run of the focus protocol: the producer raises the flag (\<open>Trigger\<close>), or a frame is
  rendered with a random reading (\<open>RenderTick\<close>).
\<close>

datatype FocusEvent = Trigger | RenderTick real

fun focusStep :: "int option \<times> InteractionRef \<Rightarrow> FocusEvent \<Rightarrow> int option \<times> InteractionRef" where
  "focusStep s Trigger = (fst s, (snd s)\<lparr>triggerFocus := True\<rparr>)"
| "focusStep s (RenderTick rnd) = focusBlock rnd s"

definition focusRun :: "int option \<times> InteractionRef \<Rightarrow> FocusEvent list \<Rightarrow> int option \<times> InteractionRef" where
  "focusRun s evs = foldl focusStep s evs"

text \<open>The number of steps of a run at which the focus goes from null to set or back.\<close>

fun toggles :: "int option \<times> InteractionRef \<Rightarrow> FocusEvent list \<Rightarrow> nat" where
  "toggles s [] = 0"
| "toggles s (ev # evs) =
     (if (fst (focusStep s ev) = None) = (fst s = None) then 0 else 1)
       + toggles (focusStep s ev) evs"

definition triggers :: "FocusEvent list \<Rightarrow> nat" where
  "triggers evs = length (filter (\<lambda>ev. ev = Trigger) evs)"

section \<open>Transition controller (LuxuryTree and ArixTree useFrame)\<close>

text \<open>
  Modelled from the spec: \<open>MathUtils.damp\<close> belongs to the three.js library and is not
  among the sources. The specification gives the update as
  \<open>progress \<leftarrow> target - (target - progress) * exp(-rate * dt)\<close>.
\<close>

definition damp :: "real \<Rightarrow> real \<Rightarrow> real \<Rightarrow> real \<Rightarrow> real" where
  "damp x y lambda dt = y - (y - x) * exp (- lambda * dt)"

text \<open>The target of the transition under the mode the component is rendered with.\<close>

definition targetOf :: "TreeState \<Rightarrow> real" where
  "targetOf mode = (if mode = FORMED then 1 else 0)"

definition transitionStep :: "TreeState \<Rightarrow> real \<Rightarrow> real \<Rightarrow> real" where
  "transitionStep mode delta progress = damp progress (targetOf mode) 2.5 delta"

definition easeT :: "real \<Rightarrow> real" where
  "easeT t = t * t * (3 - 2 * t)"

section \<open>Spatial generators\<close>

record Vector3 =
  vx :: real
  vy :: real
  vz :: real

text \<open>
  \<open>randomInCone\<close> of Experience.tsx (LuxuryTree); \<open>u1\<close>, \<open>u2\<close> and \<open>u3\<close> are the
  three \<open>Math.random()\<close> readings in the order the function takes them.
\<close>

definition randomInCone :: "real \<Rightarrow> real \<Rightarrow> real \<Rightarrow> bool \<Rightarrow> real \<Rightarrow> real \<Rightarrow> real \<Rightarrow> Vector3" where
  "randomInCone height maxRadius yOffset surfaceOnly u1 u2 u3 =
     (let y = u1 * height;
          rRadius = (1 - y / height) * maxRadius;
          r = (if surfaceOnly then rRadius * (0.85 + u2 * 0.15) else sqrt u2 * rRadius);
          theta = u3 * pi * 2;
          spiral = y * 10
      in \<lparr>vx = r * cos (theta + spiral), vy = y - yOffset, vz = r * sin (theta + spiral)\<rparr>)"

text \<open>\<open>randomInCone\<close> of HandController.tsx (ArixTree), with two readings.\<close>

definition randomInConeArix :: "real \<Rightarrow> real \<Rightarrow> real \<Rightarrow> real \<Rightarrow> real \<Rightarrow> Vector3" where
  "randomInConeArix height maxRadius yOffset u1 u2 =
     (let y = u1 * height;
          r = (1 - y / height) * maxRadius;
          theta = u2 * pi * 2;
          spiral = y * 5
      in \<lparr>vx = r * cos (theta + spiral), vy = y - yOffset, vz = r * sin (theta + spiral)\<rparr>)"

text \<open>The distance of a point from the vertical axis.\<close>

definition radial :: "Vector3 \<Rightarrow> real" where
  "radial p = sqrt (vx p * vx p + vz p * vz p)"

section \<open>Ambient gold dust (AmbientSystem useFrame)\<close>

definition DUST_COUNT :: nat where
  "DUST_COUNT = 2000"

text \<open>
  The update of one dust particle at \<open>p\<close>: the new position, and the divisors of the
  divisions it performed, in order.
\<close>

definition dustParticle :: "real \<Rightarrow> real \<Rightarrow> bool \<Rightarrow> real \<Rightarrow> real \<Rightarrow> Vector3 \<Rightarrow> Vector3 \<times> real list" where
  "dustParticle time delta isFormed speed_i phase_i p =
     (let px = vx p; py = vy p; pz = vz p;
          r2 = px * px + py * py + pz * pz;
          r = sqrt r2;
          angleSpeed = 0.2 * speed_i;
          c = cos (angleSpeed * delta);
          s = sin (angleSpeed * delta);
          nx = px * c - pz * s;
          nz = px * s + pz * c;
          ny = py + sin (time + phase_i) * 0.01;
          targetR = (if isFormed then 6.0 else 14.0);
          force = (targetR - r) * 0.5 * delta
      in if r > 0.1
         then (\<lparr>vx = nx + (nx / r) * force,
                vy = ny + (ny / r) * force * 0.1,
                vz = nz + (nz / r) * force\<rparr>, [r, r, r])
         else (\<lparr>vx = nx, vy = ny, vz = nz\<rparr>, []))"

text \<open>
  One iteration of the loop over the flat \<open>positions\<close> array; the state is the array
  and the divisors used so far.
\<close>

definition dustIter :: "real \<Rightarrow> real \<Rightarrow> bool \<Rightarrow> real list \<Rightarrow> real list \<Rightarrow> real list \<times> real list \<Rightarrow> nat \<Rightarrow> real list \<times> real list" where
  "dustIter time delta isFormed speeds phases st i =
     (let positions = fst st;
          ix = i * 3; iy = i * 3 + 1; iz = i * 3 + 2;
          out = dustParticle time delta isFormed (speeds ! i) (phases ! i)
                  \<lparr>vx = positions ! ix, vy = positions ! iy, vz = positions ! iz\<rparr>
      in (positions[ix := vx (fst out), iy := vy (fst out), iz := vz (fst out)],
          snd st @ snd out))"

text \<open>
  The dust block of a frame for \<open>n\<close> particles (the source runs it with
  \<open>DUST_COUNT\<close>); \<open>None\<close> is an unmounted \<open>dustRef\<close>.
\<close>

definition dustLoop :: "nat \<Rightarrow> real \<Rightarrow> real \<Rightarrow> TreeState \<Rightarrow> real list \<Rightarrow> real list \<Rightarrow> real list option \<Rightarrow> real list option \<times> real list" where
  "dustLoop n time delta mode speeds phases dustRef =
     (case dustRef of
        None \<Rightarrow> (None, [])
      | Some positions \<Rightarrow>
          (let st = foldl (dustIter time delta (mode = FORMED) speeds phases) (positions, []) [0..<n]
           in (Some (fst st), snd st)))"

definition dustBlock :: "real \<Rightarrow> real \<Rightarrow> TreeState \<Rightarrow> real list \<Rightarrow> real list \<Rightarrow> real list option \<Rightarrow> real list option \<times> real list" where
  "dustBlock = dustLoop DUST_COUNT"

text \<open>The distance of a point from the origin, the \<open>r\<close> of the dust update.\<close>

definition radius :: "Vector3 \<Rightarrow> real" where
  "radius p = sqrt (vx p * vx p + vy p * vy p + vz p * vz p)"

section \<open>Photos, frames and the hover outline (LuxuryTree useFrame)\<close>

datatype ParticleType = NEEDLE | ORNAMENT | PHOTO

record ParticleData =
  pid :: int
  scatterPosition :: Vector3
  treePosition :: Vector3
  scale :: real
  color :: string
  rotation :: "real \<times> real \<times> real"
  speed :: real
  phase :: real
  ptype :: ParticleType

text \<open>
  Modelled from the spec: \<open>Object3D\<close>, \<open>Vector3.lerpVectors\<close>, \<open>lookAt\<close>, \<open>rotateY\<close> and
  \<open>updateMatrix\<close> belong to the three.js library and are not among the sources. The
  interpolation is the one the specification gives,
  \<open>pos = scatter + (formed - scatter) * easeT\<close>. An orientation is kept as the calls that
  produced it, and a matrix as the position, orientation and uniform scale that
  \<open>updateMatrix\<close> composes; no property below depends on more than that.
\<close>

datatype Orientation = Unturned | LookAt Vector3 Vector3 | RotateY real Orientation

type_synonym Matrix4 = "Vector3 \<times> Orientation \<times> real"

record Object3D =
  position :: Vector3
  quaternion :: Orientation
  objScale :: real
  matrix :: Matrix4
  visible :: bool

definition lerpVectors :: "Vector3 \<Rightarrow> Vector3 \<Rightarrow> real \<Rightarrow> Vector3" where
  "lerpVectors v1 v2 alpha =
     \<lparr>vx = vx v1 + (vx v2 - vx v1) * alpha,
      vy = vy v1 + (vy v2 - vy v1) * alpha,
      vz = vz v1 + (vz v2 - vz v1) * alpha\<rparr>"

definition lookAt :: "Vector3 \<Rightarrow> Object3D \<Rightarrow> Object3D" where
  "lookAt goal obj = obj\<lparr>quaternion := LookAt (position obj) goal\<rparr>"

definition rotateY :: "real \<Rightarrow> Object3D \<Rightarrow> Object3D" where
  "rotateY angle obj = obj\<lparr>quaternion := RotateY angle (quaternion obj)\<rparr>"

definition updateMatrix :: "Object3D \<Rightarrow> Object3D" where
  "updateMatrix obj = obj\<lparr>matrix := (position obj, quaternion obj, objScale obj)\<rparr>"

text \<open>
  The body of \<open>photos.forEach\<close> at index \<open>i\<close>; the state is the shared \<open>dummy\<close> and the
  instance matrices of the photo mesh and of the frame mesh.
\<close>

definition photoStep :: "real \<Rightarrow> int option \<Rightarrow> int option \<Rightarrow> Object3D \<times> Matrix4 list \<times> Matrix4 list \<Rightarrow> nat \<times> ParticleData \<Rightarrow> Object3D \<times> Matrix4 list \<times> Matrix4 list" where
  "photoStep ease focusId hoveredId st ip =
     (let i = fst ip; p = snd ip;
          dummy = fst st; photoM = fst (snd st); frameM = snd (snd st)
      in if Some (int i) = focusId
         then (let d = dummy\<lparr>objScale := 0\<rparr>
               in (d, photoM[i := matrix d], frameM[i := matrix d]))
         else (let curPos = lerpVectors (scatterPosition p) (treePosition p) ease;
                   d1 = dummy\<lparr>position := curPos\<rparr>;
                   d2 = lookAt \<lparr>vx = 0, vy = vy curPos, vz = 0\<rparr> d1;
                   d3 = rotateY pi d2;
                   sc = (if Some (int i) = hoveredId \<and> hoveredId \<noteq> None
                         then scale p * 1.15 else scale p);
                   d4 = updateMatrix (d3\<lparr>objScale := sc\<rparr>)
               in (d4, photoM[i := matrix d4], frameM[i := matrix d4])))"

text \<open>The photo block; \<open>None\<close> is an unmounted mesh.\<close>

definition photosBlock :: "real \<Rightarrow> int option \<Rightarrow> int option \<Rightarrow> ParticleData list \<Rightarrow> Object3D \<times> Matrix4 list option \<times> Matrix4 list option \<Rightarrow> Object3D \<times> Matrix4 list option \<times> Matrix4 list option" where
  "photosBlock ease focusId hoveredId photos st =
     (case (fst (snd st), snd (snd st)) of
        (Some photoM, Some frameM) \<Rightarrow>
          (let r = foldl (photoStep ease focusId hoveredId) (fst st, photoM, frameM)
                     (enumerate 0 photos)
           in (fst r, Some (fst (snd r)), Some (snd (snd r))))
      | _ \<Rightarrow> st)"

text \<open>
  Reading \<open>photos[k]\<close>: an element for an index of the array, \<open>undefined\<close> (here
  \<open>None\<close>) for any other number. Reading a property of \<open>undefined\<close> throws.
\<close>

datatype JsError = TypeError

definition arrayGet :: "'a list \<Rightarrow> int \<Rightarrow> 'a option" where
  "arrayGet xs k = (if 0 \<le> k \<and> k < int (length xs) then Some (xs ! nat k) else None)"

text \<open>The hover block on the hover mesh; \<open>None\<close> is an unmounted mesh.\<close>

definition hoverBlock :: "real \<Rightarrow> int option \<Rightarrow> int option \<Rightarrow> ParticleData list \<Rightarrow> Object3D option \<Rightarrow> JsError + Object3D option" where
  "hoverBlock ease focusId hoveredId photos hoverMesh =
     (if hoveredId \<noteq> None \<and> hoverMesh \<noteq> None \<and> hoveredId \<noteq> focusId
      then (case arrayGet photos (the hoveredId) of
              None \<Rightarrow> Inl TypeError
            | Some p \<Rightarrow>
                (let curPos = lerpVectors (scatterPosition p) (treePosition p) ease;
                     m1 = (the hoverMesh)\<lparr>position := curPos\<rparr>;
                     m2 = lookAt \<lparr>vx = 0, vy = vy curPos, vz = 0\<rparr> m1;
                     m3 = rotateY pi m2
                 in Inr (Some (m3\<lparr>objScale := scale p * 1.25, visible := True\<rparr>))))
      else if hoverMesh \<noteq> None
      then Inr (Some ((the hoverMesh)\<lparr>visible := False\<rparr>))
      else Inr hoverMesh)"

text \<open>An id of the photo group.\<close>

definition validId :: "int \<Rightarrow> bool" where
  "validId k = (0 \<le> k \<and> k < PHOTO_COUNT)"

section \<open>Sample inputs\<close>

text \<open>
  A hand whose wrist is at the centre of the image and whose other landmarks all lie
  \<open>d\<close> to its right: the thumb and index tips coincide.
\<close>

definition flatHand :: "real \<Rightarrow> Hand" where
  "flatHand d = (\<lambda>i. if i = 0 then \<lparr>lx = 0.5, ly = 0.5\<rparr> else \<lparr>lx = 0.5 + d, ly = 0.5\<rparr>)"

text \<open>The same hand with the thumb tip far to the right: not a pinch.\<close>

definition openPinch :: Hand where
  "openPinch = (flatHand 0.3)(4 := \<lparr>lx = 2, ly = 0.5\<rparr>)"

text \<open>An application in scattered mode whose shared ref asks for the formed tree.\<close>

definition fistApp :: App where
  "fistApp = \<lparr>treeState = CHAOS, gestureState = initialGesture,
     interaction = initialRef\<lparr>targetMode := Some FORMED\<rparr>\<rparr>"

text \<open>The application as it starts.\<close>

definition startApp :: App where
  "startApp = \<lparr>treeState = FORMED, gestureState = initialGesture, interaction = initialRef\<rparr>"

text \<open>Twenty photos with the ids 0 to 19, and a mounted mesh.\<close>

definition origin :: Vector3 where
  "origin = \<lparr>vx = 0, vy = 0, vz = 0\<rparr>"

definition samplePhoto :: "nat \<Rightarrow> ParticleData" where
  "samplePhoto i = \<lparr>pid = int i, scatterPosition = origin,
     treePosition = \<lparr>vx = 1, vy = 2, vz = 0\<rparr>, scale = 0.4, color = ''#FFFFFF'',
     rotation = (0, 0, 0), speed = 0.1, phase = 0, ptype = PHOTO\<rparr>"

definition samplePhotos :: "ParticleData list" where
  "samplePhotos = map samplePhoto [0..<20]"

definition sampleMesh :: Object3D where
  "sampleMesh = \<lparr>position = origin, quaternion = Unturned, objScale = 1,
     matrix = (origin, Unturned, 1), visible = False\<rparr>"

section \<open>Gesture derivation: properties\<close>

lemma hypot_zero_right: "hypot a 0 = \<bar>a\<bar>"
  by (simp add: hypot_def)

lemma avgDist_flatHand: "avgDist (flatHand d) = \<bar>d\<bar>"
  by (simp add: avgDist_def flatHand_def hypot_zero_right)

lemma pinchDist_flatHand: "pinchDist (flatHand d) = 0"
  by (simp add: pinchDist_def flatHand_def hypot_zero_right)

lemma processHand_targetMode:
  "targetMode (snd (processHand now h s)) =
     (if avgDist h < 0.2 then Some FORMED else if avgDist h > 0.4 then Some CHAOS else None)"
  by (simp add: processHand_def pinchStart_def Let_def)

lemma processHands_Nil: "processHands s [] = s"
  by (simp add: processHands_def)

lemma processHands_Cons: "processHands s (nh # hs) = processHands (processHand (fst nh) (snd nh) s) hs"
  by (simp add: processHands_def)

lemma processHands_append: "processHands s (hs @ ks) = processHands (processHands s hs) ks"
  by (simp add: processHands_def)

lemma predict_snoc:
  "predict (Detected (hs @ [nh])) s = processHand (fst nh) (snd nh) (processHands s hs)"
  by (cases hs) (simp_all add: processHands_def)

text \<open>
  C10. Processing a detected hand sets \<open>targetMode\<close> to \<open>FORMED\<close> exactly when the
  average fingertip-to-wrist distance is below 0.2, to \<open>CHAOS\<close> exactly when it is above
  0.4, and to null exactly in the dead zone from 0.2 to 0.4. After a frame with detected
  hands the mode is the one the last hand of the frame asks for.
\<close>

theorem hand_mode_thresholds:
  "(targetMode (snd (processHand now h s)) = Some FORMED \<longleftrightarrow> avgDist h < 0.2) \<and>
   (targetMode (snd (processHand now h s)) = Some CHAOS \<longleftrightarrow> avgDist h > 0.4) \<and>
   (targetMode (snd (processHand now h s)) = None \<longleftrightarrow> 0.2 \<le> avgDist h \<and> avgDist h \<le> 0.4) \<and>
   (targetMode (snd (predict (Detected (hs @ [(now, h)])) s)) = Some FORMED \<longleftrightarrow> avgDist h < 0.2) \<and>
   (targetMode (snd (predict (Detected (hs @ [(now, h)])) s)) = Some CHAOS \<longleftrightarrow> avgDist h > 0.4) \<and>
   (targetMode (snd (predict (Detected (hs @ [(now, h)])) s)) = None
      \<longleftrightarrow> 0.2 \<le> avgDist h \<and> avgDist h \<le> 0.4)"
  unfolding predict_snoc fst_conv snd_conv processHand_targetMode by auto

theorem hand_mode_thresholds_witness:
  "targetMode (snd (processHand 0 (flatHand 0.1) (initialGesture, initialRef))) = Some FORMED \<and>
   targetMode (snd (processHand 0 (flatHand 0.5) (initialGesture, initialRef))) = Some CHAOS \<and>
   targetMode (snd (processHand 0 (flatHand 0.3) (initialGesture, initialRef))) = None \<and>
   targetMode (snd (predict (Detected [(0, flatHand 0.5), (1, flatHand 0.1)])
     (initialGesture, initialRef))) = Some FORMED"
  using hand_mode_thresholds [of 0 "flatHand 0.1" "(initialGesture, initialRef)"]
        hand_mode_thresholds [of 0 "flatHand 0.5" "(initialGesture, initialRef)"]
        hand_mode_thresholds [of 0 "flatHand 0.3" "(initialGesture, initialRef)"]
        hand_mode_thresholds [of 1 "flatHand 0.1" "(initialGesture, initialRef)" "[(0, flatHand 0.5)]"]
  by (simp add: avgDist_flatHand)

lemma pinchDist_openPinch: "pinchDist openPinch = 1.2"
  by (simp add: openPinch_def pinchDist_def flatHand_def hypot_zero_right)

lemma processHand_gesture:
  "fst (processHand now h s) =
     (if pinchDist h < 0.05
      then (if \<not> isPinching (fst s)
            then (if pinchCount (countPinch now (fst s)) = 2
                  then (countPinch now (fst s))\<lparr>pinchCount := 0\<rparr>
                  else countPinch now (fst s))
            else fst s)
      else (fst s)\<lparr>isPinching := False\<rparr>)"
  by (simp add: processHand_def pinchStart_def Let_def)

lemma processHand_trigger:
  "triggerFocus (snd (processHand now h s)) =
     (if pinchDist h < 0.05 \<and> \<not> isPinching (fst s) \<and> pinchCount (countPinch now (fst s)) = 2
      then True else triggerFocus (snd s))"
  by (simp add: processHand_def pinchStart_def Let_def)

lemma held_frames:
  "isPinching (fst s) \<Longrightarrow> \<forall>nh\<in>set hs. pinchDist (snd nh) < 0.05 \<Longrightarrow>
     fst (processHands s hs) = fst s \<and>
     triggerFocus (snd (processHands s hs)) = triggerFocus (snd s)"
proof (induction hs arbitrary: s)
  case Nil
  show ?case by (simp add: processHands_Nil)
next
  case (Cons nh hs)
  have a: "fst (processHand (fst nh) (snd nh) s) = fst s"
    using Cons.prems by (simp add: processHand_gesture)
  have b: "triggerFocus (snd (processHand (fst nh) (snd nh) s)) = triggerFocus (snd s)"
    using Cons.prems by (simp add: processHand_trigger)
  from Cons.IH [of "processHand (fst nh) (snd nh) s"] Cons.prems a b
  show ?case by (simp add: processHands_Cons)
qed

lemma released_frames:
  "\<forall>nh\<in>set hs. 0.05 \<le> pinchDist (snd nh) \<Longrightarrow>
     fst (processHands s hs) = (if hs = [] then fst s else (fst s)\<lparr>isPinching := False\<rparr>) \<and>
     triggerFocus (snd (processHands s hs)) = triggerFocus (snd s)"
proof (induction hs arbitrary: s)
  case Nil
  show ?case by (simp add: processHands_Nil)
next
  case (Cons nh hs)
  have a: "fst (processHand (fst nh) (snd nh) s) = (fst s)\<lparr>isPinching := False\<rparr>"
    using Cons.prems by (simp add: processHand_gesture)
  have b: "triggerFocus (snd (processHand (fst nh) (snd nh) s)) = triggerFocus (snd s)"
    using Cons.prems by (simp add: processHand_trigger)
  from Cons.IH [of "processHand (fst nh) (snd nh) s"] Cons.prems a b
  show ?case by (simp add: processHands_Cons)
qed

lemma first_pinch:
  assumes "pinchCount g = 0 \<or> 500 \<le> t - lastPinchTime g" "\<not> isPinching g" "pinchDist a < 0.05"
  shows "fst (processHand t a (g, i)) = g\<lparr>lastPinchTime := t, pinchCount := 1, isPinching := True\<rparr>"
    and "triggerFocus (snd (processHand t a (g, i))) = triggerFocus i"
  using assms by (auto simp add: processHand_gesture processHand_trigger countPinch_def Let_def)

lemma between_pinches:
  assumes "pinchCount g = 0 \<or> 500 \<le> t - lastPinchTime g" "\<not> isPinching g" "pinchDist a < 0.05"
    "\<forall>nh\<in>set held. pinchDist (snd nh) < 0.05" "rel \<noteq> []" "\<forall>nh\<in>set rel. 0.05 \<le> pinchDist (snd nh)"
  shows "fst (processHands (processHand t a (g, i)) (held @ rel)) =
           g\<lparr>lastPinchTime := t, pinchCount := 1, isPinching := False\<rparr>"
    and "triggerFocus (snd (processHands (processHand t a (g, i)) (held @ rel))) = triggerFocus i"
proof -
  let ?s1 = "processHand t a (g, i)"
  let ?s2 = "processHands ?s1 held"
  have g1: "fst ?s1 = g\<lparr>lastPinchTime := t, pinchCount := 1, isPinching := True\<rparr>"
    and t1: "triggerFocus (snd ?s1) = triggerFocus i"
    using first_pinch [OF assms(1-3)] by simp_all
  have h: "fst ?s2 = fst ?s1 \<and> triggerFocus (snd ?s2) = triggerFocus (snd ?s1)"
    using held_frames [of ?s1 held] assms(4) g1 by simp
  have r: "fst (processHands ?s2 rel) = (fst ?s2)\<lparr>isPinching := False\<rparr> \<and>
           triggerFocus (snd (processHands ?s2 rel)) = triggerFocus (snd ?s2)"
    using released_frames [of rel ?s2] assms(5,6) by simp
  show "fst (processHands ?s1 (held @ rel)) = g\<lparr>lastPinchTime := t, pinchCount := 1, isPinching := False\<rparr>"
    using r h g1 by (simp add: processHands_append)
  show "triggerFocus (snd (processHands ?s1 (held @ rel))) = triggerFocus i"
    using r h t1 by (simp add: processHands_append)
qed

lemma second_pinch:
  assumes "pinchDist c < 0.05" "\<not> isPinching (fst s)" "pinchCount (fst s) = 1"
    "lastPinchTime (fst s) = t"
  shows "pinchCount (countPinch (t + 300) (fst s)) = 2"
    and "triggerFocus (snd (processHand (t + 300) c s))"
    and "pinchCount (fst (processHand (t + 300) c s)) = 0"
    and "pinchCount (countPinch (t + 800) (fst s)) = 1"
    and "triggerFocus (snd (processHand (t + 800) c s)) = triggerFocus (snd s)"
    and "pinchCount (fst (processHand (t + 800) c s)) = 1"
  using assms by (simp_all add: processHand_gesture processHand_trigger countPinch_def Let_def)

text \<open>
  C3. A pinch starts at time \<open>t\<close> (hand \<open>a\<close>, the pinch not continuing an earlier one), is
  held for any number of frames and released for at least one frame, and a second pinch
  starts (hand \<open>c\<close>). When the second pinch starts at \<open>t + 300\<close>, the counter reaches 2,
  \<open>triggerFocus\<close> is set by that start and by no earlier step, and the counter is back
  at 0. When it starts at \<open>t + 800\<close>, the counter is 1 and \<open>triggerFocus\<close> stays unset.
\<close>

theorem double_pinch_window:
  assumes "pinchCount g = 0 \<or> 500 \<le> t - lastPinchTime g" and "\<not> isPinching g"
    and "\<not> triggerFocus i"
    and "pinchDist a < 0.05" and "pinchDist c < 0.05"
    and "\<forall>nh\<in>set held. pinchDist (snd nh) < 0.05"
    and "rel \<noteq> []" and "\<forall>nh\<in>set rel. 0.05 \<le> pinchDist (snd nh)"
  shows "pinchCount (fst (processHand t a (g, i))) = 1 \<and>
    \<not> triggerFocus (snd (processHand t a (g, i))) \<and>
    \<not> triggerFocus (snd (processHands (processHand t a (g, i)) (held @ rel))) \<and>
    pinchCount (countPinch (t + 300) (fst (processHands (processHand t a (g, i)) (held @ rel)))) = 2 \<and>
    triggerFocus (snd (processHand (t + 300) c (processHands (processHand t a (g, i)) (held @ rel)))) \<and>
    pinchCount (fst (processHand (t + 300) c (processHands (processHand t a (g, i)) (held @ rel)))) = 0 \<and>
    pinchCount (countPinch (t + 800) (fst (processHands (processHand t a (g, i)) (held @ rel)))) = 1 \<and>
    \<not> triggerFocus (snd (processHand (t + 800) c (processHands (processHand t a (g, i)) (held @ rel)))) \<and>
    pinchCount (fst (processHand (t + 800) c (processHands (processHand t a (g, i)) (held @ rel)))) = 1"
proof -
  let ?s2 = "processHands (processHand t a (g, i)) (held @ rel)"
  note f = first_pinch [OF assms(1,2,4), of i]
  note b = between_pinches [OF assms(1,2,4,6,7,8), of i]
  have s2: "\<not> isPinching (fst ?s2)" "pinchCount (fst ?s2) = 1" "lastPinchTime (fst ?s2) = t"
    by (simp_all add: b(1))
  note p = second_pinch [OF assms(5) s2]
  have "pinchCount (fst (processHand t a (g, i))) = 1" by (simp add: f(1))
  moreover have "\<not> triggerFocus (snd (processHand t a (g, i)))" using assms(3) by (simp add: f(2))
  moreover have "\<not> triggerFocus (snd ?s2)" using assms(3) by (simp add: b(2))
  moreover have "\<not> triggerFocus (snd (processHand (t + 800) c ?s2))"
    using assms(3) by (simp add: p(5) b(2))
  ultimately show ?thesis using p(1,2,3,4,6) by blast
qed

theorem double_pinch_window_witness:
  "pinchCount (fst (processHand 1000 (flatHand 0.3) (initialGesture, initialRef))) = 1 \<and>
    \<not> triggerFocus (snd (processHand 1000 (flatHand 0.3) (initialGesture, initialRef))) \<and>
    triggerFocus (snd (processHand (1000 + 300) (flatHand 0.3)
      (processHands (processHand 1000 (flatHand 0.3) (initialGesture, initialRef))
         ([(1100, flatHand 0.3)] @ [(1200, openPinch)])))) \<and>
    \<not> triggerFocus (snd (processHand (1000 + 800) (flatHand 0.3)
      (processHands (processHand 1000 (flatHand 0.3) (initialGesture, initialRef))
         ([(1100, flatHand 0.3)] @ [(1200, openPinch)]))))"
proof -
  have 1: "pinchCount initialGesture = 0 \<or> 500 \<le> 1000 - lastPinchTime initialGesture"
    by (simp add: initialGesture_def)
  have 2: "\<not> isPinching initialGesture" by (simp add: initialGesture_def)
  have 3: "\<not> triggerFocus initialRef" by (simp add: initialRef_def)
  have 4: "pinchDist (flatHand 0.3) < 0.05" by (simp add: pinchDist_flatHand)
  have 5: "\<forall>nh\<in>set [(1100::real, flatHand 0.3)]. pinchDist (snd nh) < 0.05"
    by (simp add: pinchDist_flatHand)
  have 6: "[(1200::real, openPinch)] \<noteq> []" by simp
  have 7: "\<forall>nh\<in>set [(1200::real, openPinch)]. 0.05 \<le> pinchDist (snd nh)"
    by (simp add: pinchDist_openPinch)
  from double_pinch_window [OF 1 2 3 4 4 5 6 7] show ?thesis by blast
qed

section \<open>Mode confirmation: properties\<close>

lemma modePoll_Some: "modePoll i m = Some t \<longleftrightarrow> targetMode i = Some t \<and> t \<noteq> m"
  by (auto simp add: modePoll_def split: option.splits)

lemma commits_le_polls: "commits a evs \<le> polls evs"
proof (induction a evs rule: commits.induct)
  case (1 a)
  show ?case by simp
next
  case (2 a evs)
  then show ?case by (simp add: polls_def split: option.splits)
next
  case (3 a f evs)
  then show ?case by (simp add: polls_def)
next
  case (4 a evs)
  then show ?case by (simp add: polls_def)
qed

lemma predict_only:
  "treeState (appRun a (map Predict fs)) = treeState a \<and> commits a (map Predict fs) = 0"
proof (induction fs arbitrary: a)
  case Nil
  show ?case by (simp add: appRun_def)
next
  case (Cons f fs)
  from Cons [of "appStep a (Predict f)"] show ?case by (simp add: appRun_def Let_def)
qed

text \<open>
  C5. The poll calls \<open>setTreeState\<close> with \<open>t\<close> exactly when the polled \<open>targetMode\<close> is
  \<open>t\<close> and \<open>t\<close> differs from the committed mode; a null \<open>targetMode\<close> commits nothing
  and leaves the application as it is; a poll changes the committed mode exactly when
  \<open>targetMode\<close> is neither null nor the committed mode. Any number of \<open>predict\<close> calls
  (each free to rewrite \<open>targetMode\<close>) commit nothing and leave the committed mode alone,
  the poll that follows them commits at most once, and along any run of events the
  number of committed changes is at most the number of polls.
\<close>

theorem mode_poll_debounce:
  "(modePoll i m = Some t \<longleftrightarrow> targetMode i = Some t \<and> t \<noteq> m) \<and>
   modePoll (i\<lparr>targetMode := None\<rparr>) m = None \<and>
   appStep (a\<lparr>interaction := i\<lparr>targetMode := None\<rparr>\<rparr>) Poll = a\<lparr>interaction := i\<lparr>targetMode := None\<rparr>\<rparr> \<and>
   (treeState (appStep a Poll) = treeState a
      \<longleftrightarrow> targetMode (interaction a) = None \<or> targetMode (interaction a) = Some (treeState a)) \<and>
   treeState (appRun a (map Predict fs)) = treeState a \<and>
   commits a (map Predict fs) = 0 \<and>
   commits a (map Predict fs @ [Poll]) \<le> 1 \<and>
   commits a evs \<le> polls evs"
proof -
  have "commits a (map Predict fs @ [Poll]) \<le> polls (map Predict fs @ [Poll])"
    by (rule commits_le_polls)
  also have "polls (map Predict fs @ [Poll]) = 1"
    by (induction fs) (simp_all add: polls_def)
  finally have one: "commits a (map Predict fs @ [Poll]) \<le> 1" .
  have step: "treeState (appStep a Poll) = treeState a
      \<longleftrightarrow> targetMode (interaction a) = None \<or> targetMode (interaction a) = Some (treeState a)"
    by (auto simp add: modePoll_def split: option.splits)
  have none: "modePoll (i\<lparr>targetMode := None\<rparr>) m = None"
    by (simp add: modePoll_def)
  have noop: "appStep (a\<lparr>interaction := i\<lparr>targetMode := None\<rparr>\<rparr>) Poll
      = a\<lparr>interaction := i\<lparr>targetMode := None\<rparr>\<rparr>"
    by (simp add: modePoll_def)
  show ?thesis
    using one step none noop predict_only [of a fs] commits_le_polls [of a evs]
      modePoll_Some [of i m t]
    by blast
qed

theorem mode_poll_debounce_witness:
  "modePoll (initialRef\<lparr>targetMode := Some FORMED\<rparr>) CHAOS = Some FORMED \<and>
   treeState (appStep fistApp Poll) \<noteq> treeState fistApp \<and>
   commits fistApp (map Predict [Detected [(0, flatHand 0.5)], Detected [(1, flatHand 0.1)]] @ [Poll]) \<le> 1 \<and>
   commits fistApp [Poll, Poll] \<le> 2"
proof -
  note w = mode_poll_debounce [of "initialRef\<lparr>targetMode := Some FORMED\<rparr>" CHAOS FORMED fistApp
      "[Detected [(0, flatHand 0.5)], Detected [(1, flatHand 0.1)]]" "[Poll, Poll]"]
  have t: "targetMode (interaction fistApp) = Some FORMED" "treeState fistApp = CHAOS"
    by (simp_all add: fistApp_def)
  have p: "polls [Poll, Poll] = 2" by (simp add: polls_def)
  from w have "modePoll (initialRef\<lparr>targetMode := Some FORMED\<rparr>) CHAOS = Some FORMED"
    by simp
  moreover from w t have "treeState (appStep fistApp Poll) \<noteq> treeState fistApp"
    by simp
  moreover from w p have "commits fistApp [Poll, Poll] \<le> 2"
    by simp
  ultimately show ?thesis using w by blast
qed

lemma flatHand_wrist: "flatHand d 0 = \<lparr>lx = 0.5, ly = 0.5\<rparr>"
  by (simp add: flatHand_def)

lemma processHand_flatHand_initial:
  "processHand 0 (flatHand 0.1) (initialGesture, initialRef) =
     (\<lparr>lastPinchTime = 0, pinchCount = 1, isPinching = True\<rparr>,
      \<lparr>rotationVelocity = 0, zoomVelocity = 0, triggerFocus = False, targetMode = Some FORMED\<rparr>)"
  by (simp add: processHand_def pinchStart_def countPinch_def avgDist_flatHand pinchDist_flatHand
      initialGesture_def initialRef_def Let_def flatHand_wrist)

text \<open>
  C9 (the code departs from the claim). A frame without a hand sets both velocities to 0
  and leaves \<open>targetMode\<close> as the last frame with a hand wrote it. After a closed fist
  the request for the formed tree therefore survives the frames without a hand: a click
  on the toggle button scatters the tree, and the next poll, with no hand in view, forms
  it again.
\<close>

theorem no_hand_frame_keeps_mode_request:
  "predict (Detected []) (g, i) = (g, i\<lparr>rotationVelocity := 0, zoomVelocity := 0\<rparr>) \<and>
   targetMode (snd (predict (Detected []) (predict (Detected [(0, flatHand 0.1)])
     (initialGesture, initialRef)))) = Some FORMED \<and>
   treeState (appRun startApp
     [Predict (Detected [(0, flatHand 0.1)]), Poll, Predict (Detected []), Toggle,
      Predict (Detected [])]) = CHAOS \<and>
   treeState (appRun startApp
     [Predict (Detected [(0, flatHand 0.1)]), Poll, Predict (Detected []), Toggle,
      Predict (Detected []), Poll]) = FORMED"
  by (simp add: appRun_def startApp_def processHands_def processHand_flatHand_initial
      modePoll_def toggleState_def Let_def)

section \<open>Focus toggle: properties\<close>

lemma focusBlock_clears: "\<not> triggerFocus (snd (focusBlock rnd s))"
  by (simp add: focusBlock_def)

lemma focusBlock_idle: "\<not> triggerFocus (snd s) \<Longrightarrow> focusBlock rnd s = s"
  by (simp add: focusBlock_def)

lemma focusBlock_fires:
  "triggerFocus (snd s) \<Longrightarrow> (fst (focusBlock rnd s) = None) \<noteq> (fst s = None)"
  by (simp add: focusBlock_def)

lemma focusRun_append: "focusRun s (xs @ ys) = focusRun (focusRun s xs) ys"
  by (simp add: focusRun_def)

lemma toggles_append: "toggles s (xs @ ys) = toggles s xs + toggles (focusRun s xs) ys"
  by (induction xs arbitrary: s) (simp_all add: focusRun_def)

lemma idle_ticks:
  "\<not> triggerFocus (snd s) \<Longrightarrow>
     focusRun s (map RenderTick rs) = s \<and> toggles s (map RenderTick rs) = 0"
  by (induction rs) (simp_all add: focusRun_def focusBlock_idle)

lemma armed_ticks:
  assumes "triggerFocus (snd s)"
  shows "toggles s (map RenderTick (r # rs)) = 1"
    and "(fst (focusRun s (map RenderTick (r # rs))) = None) \<noteq> (fst s = None)"
    and "\<not> triggerFocus (snd (focusRun s (map RenderTick (r # rs))))"
proof -
  let ?s1 = "focusBlock r s"
  have c: "\<not> triggerFocus (snd ?s1)" by (rule focusBlock_clears)
  have f: "(fst ?s1 = None) \<noteq> (fst s = None)" using assms by (rule focusBlock_fires)
  note i = idle_ticks [OF c, of rs]
  have run: "focusRun s (map RenderTick (r # rs)) = ?s1"
    using i by (simp add: focusRun_def)
  show "toggles s (map RenderTick (r # rs)) = 1" using f i by auto
  show "(fst (focusRun s (map RenderTick (r # rs))) = None) \<noteq> (fst s = None)"
    unfolding run by (rule f)
  show "\<not> triggerFocus (snd (focusRun s (map RenderTick (r # rs))))"
    unfolding run by (rule c)
qed

lemma trigger_arms:
  "focusRun s [Trigger] = (fst s, (snd s)\<lparr>triggerFocus := True\<rparr>)" "toggles s [Trigger] = 0"
  by (simp_all add: focusRun_def)

lemma toggles_bound:
  "toggles s evs + (if triggerFocus (snd (focusRun s evs)) then 1 else 0)
     \<le> triggers evs + (if triggerFocus (snd s) then 1 else 0)"
proof (induction evs arbitrary: s)
  case Nil
  show ?case by (simp add: focusRun_def triggers_def)
next
  case (Cons ev evs)
  define tog :: nat where "tog = (if (fst (focusStep s ev) = None) = (fst s = None) then 0 else 1)"
  define armed :: nat where "armed = (if triggerFocus (snd (focusStep s ev)) then 1 else 0)"
  define trig :: nat where "trig = (if ev = Trigger then 1 else 0)"
  define before :: nat where "before = (if triggerFocus (snd s) then 1 else 0)"
  define after :: nat
    where "after = (if triggerFocus (snd (focusRun (focusStep s ev) evs)) then 1 else 0)"
  have step: "tog + armed \<le> trig + before"
    unfolding tog_def armed_def trig_def before_def
    by (cases ev) (simp_all add: focusBlock_def)
  have ih: "toggles (focusStep s ev) evs + after \<le> triggers evs + armed"
    unfolding after_def armed_def by (rule Cons)
  have l: "toggles s (ev # evs) = tog + toggles (focusStep s ev) evs"
    unfolding tog_def by simp
  have r: "triggers (ev # evs) = trig + triggers evs"
    unfolding trig_def by (simp add: triggers_def)
  have f: "focusRun s (ev # evs) = focusRun (focusStep s ev) evs"
    by (simp add: focusRun_def)
  have "toggles s (ev # evs) + after \<le> triggers (ev # evs) + before"
    using step ih l r by linarith
  then show ?case unfolding f after_def before_def .
qed

text \<open>
  C2. From a state whose flag is down, render any number of frames, raise \<open>triggerFocus\<close>
  once, and render at least one more frame: the focus changes between null and non-null
  exactly once, it ends on the other side, and the flag is down again. Before the first
  frame after the trigger nothing has toggled. Raising the flag twice before the next
  frame still toggles once. Every frame leaves the flag down, and on any run from a state
  whose flag is down the number of toggles is at most the number of times the flag was
  raised.
\<close>

theorem focus_trigger_one_shot:
  assumes "\<not> triggerFocus (snd s)"
  shows "toggles s (map RenderTick pre @ [Trigger] @ map RenderTick (r # post)) = 1 \<and>
    ((fst (focusRun s (map RenderTick pre @ [Trigger] @ map RenderTick (r # post))) = None)
       \<noteq> (fst s = None)) \<and>
    \<not> triggerFocus (snd (focusRun s (map RenderTick pre @ [Trigger] @ map RenderTick (r # post)))) \<and>
    toggles s (map RenderTick pre @ [Trigger]) = 0 \<and>
    toggles s (map RenderTick pre @ [Trigger, Trigger] @ map RenderTick (r # post)) = 1 \<and>
    \<not> triggerFocus (snd (focusBlock r x)) \<and>
    toggles s evs \<le> triggers evs"
proof -
  note p = idle_ticks [OF assms, of pre]
  let ?a = "(fst s, (snd s)\<lparr>triggerFocus := True\<rparr>)"
  have armed: "triggerFocus (snd ?a)" by simp
  note t = armed_ticks [OF armed, of r post]
  have r1: "focusRun s (map RenderTick pre @ [Trigger]) = ?a"
    using p by (simp add: focusRun_append trigger_arms)
  have r2: "focusRun s (map RenderTick pre @ [Trigger, Trigger]) = ?a"
    using p by (simp add: focusRun_def)
  have z1: "toggles s (map RenderTick pre @ [Trigger]) = 0"
    using p by (simp add: toggles_append)
  have z2: "toggles s (map RenderTick pre @ [Trigger, Trigger]) = 0"
    using p by (simp add: toggles_append)
  have a1: "toggles s (map RenderTick pre @ [Trigger] @ map RenderTick (r # post)) = 1"
    using toggles_append [of s "map RenderTick pre @ [Trigger]" "map RenderTick (r # post)"] z1 t(1)
    by (simp only: r1 append_assoc)
  have a2: "toggles s (map RenderTick pre @ [Trigger, Trigger] @ map RenderTick (r # post)) = 1"
    using toggles_append [of s "map RenderTick pre @ [Trigger, Trigger]" "map RenderTick (r # post)"] z2 t(1)
    by (simp only: r2 append_assoc)
  have run: "focusRun s (map RenderTick pre @ [Trigger] @ map RenderTick (r # post))
      = focusRun ?a (map RenderTick (r # post))"
    using focusRun_append [of s "map RenderTick pre @ [Trigger]" "map RenderTick (r # post)"]
    by (simp only: r1 append_assoc)
  have b: "toggles s evs \<le> triggers evs"
    using toggles_bound [of s evs] assms by simp
  show ?thesis
    using a1 a2 z1 b t(2,3) focusBlock_clears [of r x] by (simp only: run) simp
qed

theorem focus_trigger_one_shot_witness:
  "toggles (None, initialRef)
     (map RenderTick [0.5, 0.25] @ [Trigger] @ map RenderTick (0.3 # [0.7])) = 1 \<and>
   fst (focusRun (None, initialRef)
     (map RenderTick [0.5, 0.25] @ [Trigger] @ map RenderTick (0.3 # [0.7]))) \<noteq> None \<and>
   toggles (None, initialRef)
     (map RenderTick [0.5, 0.25] @ [Trigger, Trigger] @ map RenderTick (0.3 # [0.7])) = 1"
proof -
  have h: "\<not> triggerFocus (snd (None :: int option, initialRef))"
    by (simp add: initialRef_def)
  note w = focus_trigger_one_shot [OF h, where pre = "[0.5, 0.25]" and r = "0.3"
      and post = "[0.7]" and x = "(None, initialRef)" and evs = "[]"]
  note a = w [THEN conjunct1]
  have b: "fst (focusRun (None, initialRef)
     (map RenderTick [0.5, 0.25] @ [Trigger] @ map RenderTick (0.3 # [0.7]))) \<noteq> None"
    using w [THEN conjunct2, THEN conjunct1] by simp
  note c = w [THEN conjunct2, THEN conjunct2, THEN conjunct2, THEN conjunct2, THEN conjunct1]
  from a b c show ?thesis by (intro conjI)
qed

section \<open>Transition controller: properties\<close>

lemma easeT_deriv: "(easeT has_real_derivative 6 * t * (1 - t)) (at t)"
  unfolding easeT_def [abs_def]
  by (auto intro!: derivative_eq_intros simp add: algebra_simps)

lemma easeT_mono:
  assumes "0 \<le> a" "a \<le> b" "b \<le> 1"
  shows "easeT a \<le> easeT b"
proof -
  have d: "easeT b - easeT a = (b - a) * (a * (3 - 2 * a - b) + b * (3 - 2 * b - a))"
    by (simp add: easeT_def algebra_simps)
  have "0 \<le> a * (3 - 2 * a - b)" using assms by (intro mult_nonneg_nonneg) simp_all
  moreover have "0 \<le> b * (3 - 2 * b - a)" using assms by (intro mult_nonneg_nonneg) simp_all
  ultimately have "0 \<le> (b - a) * (a * (3 - 2 * a - b) + b * (3 - 2 * b - a))"
    using assms by (intro mult_nonneg_nonneg) simp_all
  with d show ?thesis by simp
qed

text \<open>
  C6. The easing function is 0 at 0 and 1 at 1, is non-decreasing on the interval from 0
  to 1, and has derivative 0 at both ends.
\<close>

theorem easeT_smoothstep:
  "easeT 0 = 0 \<and> easeT 1 = 1 \<and>
   (\<forall>a b. 0 \<le> a \<and> a \<le> b \<and> b \<le> 1 \<longrightarrow> easeT a \<le> easeT b) \<and>
   (easeT has_real_derivative 0) (at 0) \<and>
   (easeT has_real_derivative 0) (at 1)"
proof -
  have "easeT 0 = 0" "easeT 1 = 1" by (simp_all add: easeT_def)
  moreover have "(easeT has_real_derivative 0) (at 0)" using easeT_deriv [of 0] by simp
  moreover have "(easeT has_real_derivative 0) (at 1)" using easeT_deriv [of 1] by simp
  ultimately show ?thesis using easeT_mono by blast
qed

theorem easeT_smoothstep_witness:
  "easeT (1/4) \<le> easeT (1/2) \<and> easeT 0 = 0 \<and> easeT 1 = 1"
proof -
  have "(0::real) \<le> 1/4 \<and> (1/4::real) \<le> 1/2 \<and> (1/2::real) \<le> 1" by simp
  with easeT_smoothstep show ?thesis by blast
qed

lemma transitionStep_closed:
  "(transitionStep m dt ^^ n) p = targetOf m - (targetOf m - p) * exp (- 2.5 * dt) ^ n"
proof (induction n)
  case 0
  show ?case by simp
next
  case (Suc n)
  have "(transitionStep m dt ^^ Suc n) p = transitionStep m dt ((transitionStep m dt ^^ n) p)"
    by simp
  also have "\<dots> = transitionStep m dt (targetOf m - (targetOf m - p) * exp (- 2.5 * dt) ^ n)"
    by (simp only: Suc)
  also have "\<dots> = targetOf m - (targetOf m - p) * exp (- 2.5 * dt) ^ Suc n"
    by (simp add: transitionStep_def damp_def algebra_simps)
  finally show ?case .
qed

lemma decay_bounds:
  assumes "0 < dt"
  shows "0 < exp (- 2.5 * dt)" "exp (- 2.5 * dt) < (1::real)"
  using assms by simp_all

lemma power_decay:
  assumes "0 \<le> e" "e \<le> (1::real)"
  shows "e ^ Suc n \<le> e ^ n" "0 \<le> e ^ n" "e ^ n \<le> 1"
  using assms by (simp_all add: mult_left_le_one_le power_le_one)

lemma fifty_steps: "(transitionStep FORMED 0.1 ^^ 50) 0 > 0.9"
proof -
  have "exp (- 2.5 * 0.1 :: real) ^ 50 = exp (of_nat 50 * (- 2.5 * 0.1))"
    by (rule exp_of_nat_mult [symmetric])
  also have "\<dots> = exp (- 12.5)" by simp
  also have "\<dots> = inverse (exp 12.5)" by (simp add: exp_minus)
  finally have e: "exp (- 2.5 * 0.1 :: real) ^ 50 = inverse (exp 12.5)" .
  have "(10::real) < 1 + 12.5" by simp
  also have "\<dots> \<le> exp 12.5" by (rule exp_ge_add_one_self)
  finally have "inverse (exp (12.5::real)) < inverse 10"
    by (simp add: field_simps)
  with e show ?thesis by (simp add: transitionStep_closed targetOf_def)
qed

text \<open>
  C1. For either mode, every frame time \<open>dt > 0\<close> and every starting progress between
  0 and 1, iterating the transition update never increases the distance to the target;
  towards the formed tree the progress never decreases and never exceeds 1, towards the
  scattered state it never increases and never falls below 0; and the progress converges
  to the target. From progress 0 towards the formed tree with \<open>dt = 0.1\<close>, the progress
  after 50 steps exceeds 0.9 and no step up to the fiftieth exceeds 1.
\<close>

theorem damped_convergence:
  assumes "0 < dt" and "0 \<le> p" and "p \<le> 1"
  shows "(\<forall>n. \<bar>targetOf m - (transitionStep m dt ^^ Suc n) p\<bar>
            \<le> \<bar>targetOf m - (transitionStep m dt ^^ n) p\<bar>) \<and>
    (\<forall>n. m = FORMED \<longrightarrow> (transitionStep m dt ^^ n) p \<le> (transitionStep m dt ^^ Suc n) p
            \<and> (transitionStep m dt ^^ Suc n) p \<le> 1) \<and>
    (\<forall>n. m = CHAOS \<longrightarrow> 0 \<le> (transitionStep m dt ^^ Suc n) p
            \<and> (transitionStep m dt ^^ Suc n) p \<le> (transitionStep m dt ^^ n) p) \<and>
    (\<lambda>n. (transitionStep m dt ^^ n) p) \<longlonglongrightarrow> targetOf m \<and>
    (transitionStep FORMED 0.1 ^^ 50) 0 > 0.9 \<and>
    (\<forall>k\<le>50. (transitionStep FORMED 0.1 ^^ k) 0 \<le> 1)"
proof -
  define e where "e = exp (- 2.5 * dt)"
  have e: "0 \<le> e" "e \<le> 1" "e < 1" using decay_bounds [OF assms(1)] by (simp_all add: e_def)
  have q: "(transitionStep m dt ^^ n) p = targetOf m - (targetOf m - p) * e ^ n" for n
    unfolding e_def by (rule transitionStep_closed)
  have dist: "\<bar>targetOf m - (transitionStep m dt ^^ Suc n) p\<bar>
            \<le> \<bar>targetOf m - (transitionStep m dt ^^ n) p\<bar>" for n
  proof -
    have "\<bar>(targetOf m - p) * e ^ Suc n\<bar> = \<bar>targetOf m - p\<bar> * e ^ Suc n"
      using e by (simp add: abs_mult)
    also have "\<dots> \<le> \<bar>targetOf m - p\<bar> * e ^ n"
      using power_decay(1) [OF e(1,2), of n] by (intro mult_left_mono) simp_all
    also have "\<dots> = \<bar>(targetOf m - p) * e ^ n\<bar>"
      using e by (simp add: abs_mult)
    finally show ?thesis unfolding q by simp
  qed
  have formed: "(transitionStep m dt ^^ n) p \<le> (transitionStep m dt ^^ Suc n) p
            \<and> (transitionStep m dt ^^ Suc n) p \<le> 1" if "m = FORMED" for n
  proof -
    have "(1 - p) * e ^ Suc n \<le> (1 - p) * e ^ n"
      using power_decay(1) [OF e(1,2), of n] assms(3) by (intro mult_left_mono) simp_all
    moreover have "0 \<le> (1 - p) * e ^ Suc n"
      using power_decay(2) [OF e(1,2), of "Suc n"] assms(3) by (intro mult_nonneg_nonneg) simp_all
    ultimately show ?thesis using that unfolding q by (simp add: targetOf_def)
  qed
  have chaos: "0 \<le> (transitionStep m dt ^^ Suc n) p
            \<and> (transitionStep m dt ^^ Suc n) p \<le> (transitionStep m dt ^^ n) p" if "m = CHAOS" for n
  proof -
    have "p * e ^ Suc n \<le> p * e ^ n"
      using power_decay(1) [OF e(1,2), of n] assms(2) by (intro mult_left_mono) simp_all
    moreover have "0 \<le> p * e ^ Suc n"
      using power_decay(2) [OF e(1,2), of "Suc n"] assms(2) by (intro mult_nonneg_nonneg) simp_all
    ultimately show ?thesis using that unfolding q by (simp add: targetOf_def)
  qed
  have l0: "(\<lambda>n. e ^ n) \<longlonglongrightarrow> 0" using e by (intro LIMSEQ_realpow_zero) simp_all
  have "(\<lambda>n. targetOf m - (targetOf m - p) * e ^ n) \<longlonglongrightarrow> targetOf m - (targetOf m - p) * 0"
    by (rule tendsto_diff [OF tendsto_const tendsto_mult [OF tendsto_const l0]])
  then have lim: "(\<lambda>n. (transitionStep m dt ^^ n) p) \<longlonglongrightarrow> targetOf m"
    by (simp add: q)
  have le1: "(transitionStep FORMED 0.1 ^^ k) 0 \<le> 1" for k
  proof -
    have "0 \<le> exp (- 2.5 * 0.1 :: real) ^ k" by simp
    then show ?thesis by (simp add: transitionStep_closed targetOf_def)
  qed
  show ?thesis using dist formed chaos lim fifty_steps le1 by blast
qed

theorem damped_convergence_witness:
  "(transitionStep FORMED 0.1 ^^ 3) 0 \<le> (transitionStep FORMED 0.1 ^^ Suc 3) 0 \<and>
   (transitionStep FORMED 0.1 ^^ Suc 3) 0 \<le> 1 \<and>
   0 \<le> (transitionStep CHAOS 0.1 ^^ Suc 3) 1 \<and>
   (transitionStep CHAOS 0.1 ^^ Suc 3) 1 \<le> (transitionStep CHAOS 0.1 ^^ 3) 1"
proof -
  have h: "(0::real) < 0.1" "(0::real) \<le> 0" "(0::real) \<le> 1" "(1::real) \<le> 1" by simp_all
  from damped_convergence [OF h(1) h(2) h(3), of FORMED]
       damped_convergence [OF h(1) h(3) h(4), of CHAOS]
  show ?thesis by blast
qed

section \<open>Spatial generators: properties\<close>

lemma radial_polar: "sqrt ((r * cos a) * (r * cos a) + (r * sin a) * (r * sin a)) = \<bar>r\<bar>"
proof -
  have "(r * cos a) * (r * cos a) + (r * sin a) * (r * sin a)
      = (r * r) * (cos a * cos a) + (r * r) * (sin a * sin a)"
    by (simp only: mult_ac)
  also have "\<dots> = (r * r) * (cos a * cos a + sin a * sin a)"
    by (simp only: distrib_left)
  also have "\<dots> = r * r"
    by (simp only: sin_cos_squared_add3 mult_1_right)
  finally show ?thesis by (simp only: real_sqrt_abs2)
qed

lemma cone_height:
  "vy (randomInCone H R off so u1 u2 u3) + off = u1 * H"
  "vy (randomInConeArix H R off u1 u3) + off = u1 * H"
  by (simp_all add: randomInCone_def randomInConeArix_def Let_def)

lemma cone_radial_interior:
  "radial (randomInCone H R off False u1 u2 u3) = \<bar>sqrt u2 * ((1 - u1 * H / H) * R)\<bar>"
  by (simp add: randomInCone_def radial_def Let_def radial_polar)

lemma cone_radial_surface:
  "radial (randomInCone H R off True u1 u2 u3) = \<bar>(1 - u1 * H / H) * R * (0.85 + u2 * 0.15)\<bar>"
  by (simp add: randomInCone_def radial_def Let_def radial_polar)

lemma cone_radial_arix:
  "radial (randomInConeArix H R off u1 u3) = \<bar>(1 - u1 * H / H) * R\<bar>"
  by (simp add: randomInConeArix_def radial_def Let_def radial_polar)

text \<open>
  C4. For a cone of height \<open>H > 0\<close> and base radius \<open>R > 0\<close>, any vertical offset and
  random readings in the unit interval, the point that either generator returns has a
  height before the offset of at least 0 and below \<open>H\<close>, and its distance from the axis is
  at most \<open>R * (1 - y / H)\<close> at that height \<open>y\<close>. With \<open>surfaceOnly\<close> the distance lies
  between 0.85 and 1.0 times that bound; the generator of ArixTree puts the point exactly
  on the bound.
\<close>

theorem cone_generator_bounds:
  assumes "0 < H" and "0 < R" and "0 \<le> u1" and "u1 < 1" and "0 \<le> u2" and "u2 < 1"
  shows "0 \<le> vy (randomInCone H R off so u1 u2 u3) + off \<and>
    vy (randomInCone H R off so u1 u2 u3) + off < H \<and>
    radial (randomInCone H R off so u1 u2 u3)
      \<le> R * (1 - (vy (randomInCone H R off so u1 u2 u3) + off) / H) \<and>
    0.85 * (R * (1 - (vy (randomInCone H R off True u1 u2 u3) + off) / H))
      \<le> radial (randomInCone H R off True u1 u2 u3) \<and>
    radial (randomInCone H R off True u1 u2 u3)
      \<le> 1.0 * (R * (1 - (vy (randomInCone H R off True u1 u2 u3) + off) / H)) \<and>
    0 \<le> vy (randomInConeArix H R off u1 u3) + off \<and>
    vy (randomInConeArix H R off u1 u3) + off < H \<and>
    radial (randomInConeArix H R off u1 u3)
      = R * (1 - (vy (randomInConeArix H R off u1 u3) + off) / H)"
proof -
  define w where "w = (1 - u1) * R"
  have w: "0 < w" using assms by (simp add: w_def)
  have frac: "u1 * H / H = u1" using assms(1) by simp
  have y0: "0 \<le> u1 * H" using assms by simp
  have y1: "u1 * H < H" using assms by simp
  have rhs: "R * (1 - u1 * H / H) = w" by (simp add: frac w_def)
  have s0: "0 \<le> sqrt u2" "sqrt u2 \<le> 1" using assms by simp_all
  have interior: "radial (randomInCone H R off False u1 u2 u3) \<le> w"
  proof -
    have "radial (randomInCone H R off False u1 u2 u3) = \<bar>sqrt u2 * w\<bar>"
      unfolding cone_radial_interior frac w_def ..
    also have "\<dots> = sqrt u2 * w"
      using s0 w by (intro abs_of_nonneg mult_nonneg_nonneg) simp_all
    also have "\<dots> \<le> 1 * w" using s0 w by (intro mult_right_mono) simp_all
    finally show ?thesis by simp
  qed
  have k: "0.85 \<le> 0.85 + u2 * 0.15" "0.85 + u2 * 0.15 \<le> 1" using assms by simp_all
  have "radial (randomInCone H R off True u1 u2 u3) = \<bar>w * (0.85 + u2 * 0.15)\<bar>"
    unfolding cone_radial_surface frac w_def ..
  also have "\<dots> = w * (0.85 + u2 * 0.15)"
    using w k by (intro abs_of_nonneg mult_nonneg_nonneg) simp_all
  finally have surf: "radial (randomInCone H R off True u1 u2 u3) = w * (0.85 + u2 * 0.15)" .
  have surf_lo: "0.85 * w \<le> radial (randomInCone H R off True u1 u2 u3)"
    unfolding surf using w k(1) by (simp add: mult.commute)
  have surf_hi: "radial (randomInCone H R off True u1 u2 u3) \<le> w"
    unfolding surf using mult_left_mono [OF k(2), of w] w by simp
  have both: "radial (randomInCone H R off so u1 u2 u3) \<le> w"
    using interior surf_hi by (cases so) simp_all
  have "radial (randomInConeArix H R off u1 u3) = \<bar>w\<bar>"
    unfolding cone_radial_arix frac w_def ..
  then have arix: "radial (randomInConeArix H R off u1 u3) = w"
    using w by simp
  show ?thesis
    unfolding cone_height rhs using y0 y1 both surf_lo surf_hi arix by simp
qed

theorem cone_generator_bounds_witness:
  "0 \<le> vy (randomInCone 10 4 5 False (1/2) (1/4) (1/3)) + 5 \<and>
   vy (randomInCone 10 4 5 False (1/2) (1/4) (1/3)) + 5 < 10 \<and>
   radial (randomInCone 10 4 5 False (1/2) (1/4) (1/3))
     \<le> 4 * (1 - (vy (randomInCone 10 4 5 False (1/2) (1/4) (1/3)) + 5) / 10) \<and>
   0.85 * (4 * (1 - (vy (randomInCone 10 4 5 True (1/2) (1/4) (1/3)) + 5) / 10))
     \<le> radial (randomInCone 10 4 5 True (1/2) (1/4) (1/3))"
proof -
  have h: "(0::real) < 10" "(0::real) < 4" "(0::real) \<le> 1/2" "(1/2::real) < 1"
    "(0::real) \<le> 1/4" "(1/4::real) < 1" by simp_all
  from cone_generator_bounds [OF h, of 5 False "1/3"] show ?thesis by blast
qed

section \<open>Ambient gold dust: properties\<close>

lemma dustParticle_divisors:
  "snd (dustParticle time delta f sp ph p) = (if 0.1 < radius p then [radius p, radius p, radius p] else [])"
  by (simp add: dustParticle_def radius_def Let_def)

lemma dustParticle_skipped:
  "radius p \<le> 0.1 \<Longrightarrow>
     dustParticle time delta f sp ph p =
       (\<lparr>vx = vx p * cos (0.2 * sp * delta) - vz p * sin (0.2 * sp * delta),
         vy = vy p + sin (time + ph) * 0.01,
         vz = vx p * sin (0.2 * sp * delta) + vz p * cos (0.2 * sp * delta)\<rparr>, [])"
  by (simp add: dustParticle_def radius_def Let_def)

lemma dustIter_log:
  "snd (dustIter time delta f speeds phases st i) =
     snd st @ snd (dustParticle time delta f (speeds ! i) (phases ! i)
       \<lparr>vx = fst st ! (i * 3), vy = fst st ! (i * 3 + 1), vz = fst st ! (i * 3 + 2)\<rparr>)"
  by (simp add: dustIter_def Let_def)

lemma dust_fold_log:
  "\<forall>d\<in>set (snd st). 0.1 < d \<Longrightarrow>
     \<forall>d\<in>set (snd (foldl (dustIter time delta f speeds phases) st js)). 0.1 < d"
proof (induction js arbitrary: st)
  case Nil
  then show ?case by simp
next
  case (Cons j js)
  have "\<forall>d\<in>set (snd (dustIter time delta f speeds phases st j)). 0.1 < d"
    using Cons.prems by (auto simp add: dustIter_log dustParticle_divisors)
  from Cons.IH [OF this] show ?case by simp
qed

lemma dustLoop_log: "\<forall>d\<in>set (snd (dustLoop n time delta mode speeds phases dustRef)). 0.1 < d"
proof (cases dustRef)
  case None
  then show ?thesis by (simp add: dustLoop_def)
next
  case (Some positions)
  have "\<forall>d\<in>set (snd (foldl (dustIter time delta (mode = FORMED) speeds phases)
      (positions, []) [0..<n])). 0.1 < d"
    by (rule dust_fold_log) simp
  with Some show ?thesis by (simp add: dustLoop_def Let_def)
qed

text \<open>
  C8. In the update of a dust particle every division divides by the radius \<open>r\<close> of the
  particle and every divisor is above 0.1: a division happens exactly when \<open>r > 0.1\<close>.
  When \<open>r\<close> is at most 0.1 the force step is skipped: the new position is the rotated
  position with the vertical jitter, and nothing is divided. The same holds for every
  division in the loop over all particles of a frame.
\<close>

theorem dust_force_guard:
  "(\<forall>d\<in>set (snd (dustParticle time delta f sp ph p)). 0.1 < d) \<and>
   (snd (dustParticle time delta f sp ph p) \<noteq> [] \<longleftrightarrow> 0.1 < radius p) \<and>
   (radius p \<le> 0.1 \<longrightarrow>
      dustParticle time delta f sp ph p =
        (\<lparr>vx = vx p * cos (0.2 * sp * delta) - vz p * sin (0.2 * sp * delta),
          vy = vy p + sin (time + ph) * 0.01,
          vz = vx p * sin (0.2 * sp * delta) + vz p * cos (0.2 * sp * delta)\<rparr>, [])) \<and>
   (\<forall>d\<in>set (snd (dustLoop n time delta mode speeds phases dustRef)). 0.1 < d) \<and>
   (\<forall>d\<in>set (snd (dustBlock time delta mode speeds phases dustRef)). 0.1 < d)"
proof -
  have a: "\<forall>d\<in>set (snd (dustParticle time delta f sp ph p)). 0.1 < d"
    by (simp add: dustParticle_divisors)
  have b: "snd (dustParticle time delta f sp ph p) \<noteq> [] \<longleftrightarrow> 0.1 < radius p"
    by (simp add: dustParticle_divisors)
  show ?thesis
    using a b dustParticle_skipped [of p time delta f sp ph] dustLoop_log
    unfolding dustBlock_def by blast
qed

lemma radius_unit: "radius \<lparr>vx = 1, vy = 0, vz = 0\<rparr> = 1" "radius \<lparr>vx = 0, vy = 0, vz = 0\<rparr> = 0"
  by (simp_all add: radius_def)

theorem dust_force_guard_witness:
  "snd (dustParticle 0 1 True 1 0 \<lparr>vx = 1, vy = 0, vz = 0\<rparr>) \<noteq> [] \<and>
   snd (dustParticle 0 1 True 1 0 \<lparr>vx = 0, vy = 0, vz = 0\<rparr>) = [] \<and>
   0.1 < hd (snd (dustLoop 1 0 1 FORMED [1] [0] (Some [1, 0, 0])))"
proof -
  note w1 = dust_force_guard [of 0 1 True 1 0 "\<lparr>vx = 1, vy = 0, vz = 0\<rparr>" 1 FORMED "[1]" "[0]" "Some [1, 0, 0]"]
  note w0 = dust_force_guard [of 0 1 True 1 0 "\<lparr>vx = 0, vy = 0, vz = 0\<rparr>" 1 FORMED "[1]" "[0]" "Some [1, 0, 0]"]
  have a: "snd (dustParticle 0 1 True 1 0 \<lparr>vx = 1, vy = 0, vz = 0\<rparr>) \<noteq> []"
    using w1 by (simp add: radius_unit)
  have b: "snd (dustParticle 0 1 True 1 0 \<lparr>vx = 0, vy = 0, vz = 0\<rparr>) = []"
    using w0 by (simp add: radius_unit)
  have l: "snd (dustLoop 1 0 1 FORMED [1] [0] (Some [1, 0, 0])) = [1, 1, 1]"
    by (simp add: dustLoop_def dustIter_log dustParticle_divisors radius_unit Let_def)
  have c: "0.1 < hd (snd (dustLoop 1 0 1 FORMED [1] [0] (Some [1, 0, 0])))"
    using w1 [THEN conjunct2, THEN conjunct2, THEN conjunct2, THEN conjunct1] unfolding l by simp
  from a b c show ?thesis by (intro conjI)
qed

section \<open>Photos and the hover outline: properties\<close>

lemma length_samplePhotos: "int (length samplePhotos) = PHOTO_COUNT"
  by (simp add: samplePhotos_def PHOTO_COUNT_def)

lemma arrayGet_invalid: "int (length xs) = PHOTO_COUNT \<Longrightarrow> \<not> validId h \<Longrightarrow> arrayGet xs h = None"
  by (auto simp add: arrayGet_def validId_def)

text \<open>
  C7, as stated, fails: with the hover mesh mounted, no photo focused and \<open>hoveredId = 20\<close>
  (one past the last photo), the hover block reads \<open>photos[20]\<close>, which is undefined, and
  the read of its \<open>scatterPosition\<close> throws.
\<close>

theorem hover_out_of_range_throws:
  "\<not> validId 20 \<and> hoverBlock 1 None (Some 20) samplePhotos (Some sampleMesh) = Inl TypeError"
proof -
  have v: "\<not> validId 20" by (simp add: validId_def PHOTO_COUNT_def)
  have "arrayGet samplePhotos 20 = None"
    using arrayGet_invalid [OF length_samplePhotos v] .
  then have "hoverBlock 1 None (Some 20) samplePhotos (Some sampleMesh) = Inl TypeError"
    by (simp add: hoverBlock_def)
  with v show ?thesis by simp
qed

lemma foldl_same:
  "(\<And>s x. x \<in> set xs \<Longrightarrow> f s x = g s x) \<Longrightarrow> foldl f s xs = foldl g s xs"
  by (induction xs arbitrary: s) simp_all

lemma photoStep_invalid_focus:
  assumes "int (length photos) = PHOTO_COUNT" "\<not> validId f" "ip \<in> set (enumerate 0 photos)"
  shows "photoStep e (Some f) hov st ip = photoStep e None hov st ip"
proof -
  have "validId (int (fst ip))"
    using assms(1,3) by (auto simp add: in_set_enumerate_eq validId_def)
  with assms(2) have "int (fst ip) \<noteq> f" by auto
  then show ?thesis by (simp add: photoStep_def Let_def)
qed

lemma photoStep_invalid_hover:
  assumes "int (length photos) = PHOTO_COUNT" "\<not> validId h" "ip \<in> set (enumerate 0 photos)"
  shows "photoStep e foc (Some h) st ip = photoStep e foc None st ip"
proof -
  have "validId (int (fst ip))"
    using assms(1,3) by (auto simp add: in_set_enumerate_eq validId_def)
  with assms(2) have "int (fst ip) \<noteq> h" by auto
  then show ?thesis by (simp add: photoStep_def Let_def)
qed

lemma photosBlock_invalid_focus:
  assumes "int (length photos) = PHOTO_COUNT" "\<not> validId f"
  shows "photosBlock e (Some f) hov photos st = photosBlock e None hov photos st"
proof -
  have eq: "foldl (photoStep e (Some f) hov) s (enumerate 0 photos)
      = foldl (photoStep e None hov) s (enumerate 0 photos)" for s
    by (rule foldl_same) (rule photoStep_invalid_focus [OF assms])
  show ?thesis unfolding photosBlock_def eq ..
qed

lemma photosBlock_invalid_hover:
  assumes "int (length photos) = PHOTO_COUNT" "\<not> validId h"
  shows "photosBlock e foc (Some h) photos st = photosBlock e foc None photos st"
proof -
  have eq: "foldl (photoStep e foc (Some h)) s (enumerate 0 photos)
      = foldl (photoStep e foc None) s (enumerate 0 photos)" for s
    by (rule foldl_same) (rule photoStep_invalid_hover [OF assms])
  show ?thesis unfolding photosBlock_def eq ..
qed

lemma hoverBlock_invalid_focus:
  assumes "\<not> validId f"
  shows "hoverBlock e (Some f) None photos hm = hoverBlock e None None photos hm"
    and "validId k \<Longrightarrow> hoverBlock e (Some f) (Some k) photos hm = hoverBlock e None (Some k) photos hm"
proof -
  show "hoverBlock e (Some f) None photos hm = hoverBlock e None None photos hm"
    by (simp add: hoverBlock_def)
  assume "validId k"
  with assms have "k \<noteq> f" by auto
  then show "hoverBlock e (Some f) (Some k) photos hm = hoverBlock e None (Some k) photos hm"
    by (simp add: hoverBlock_def)
qed

lemma hoverBlock_invalid_hover:
  assumes "int (length photos) = PHOTO_COUNT" "\<not> validId h"
  shows "hoverBlock e foc (Some h) photos None = Inr None"
    and "hoverBlock e foc (Some h) photos (Some m) =
      (if foc = Some h then Inr (Some (m\<lparr>visible := False\<rparr>)) else Inl TypeError)"
  using arrayGet_invalid [OF assms] by (auto simp add: hoverBlock_def)

text \<open>
  C7, amended. With \<open>PHOTO_COUNT\<close> photos: a \<open>focusId\<close> outside the photo ids leaves the
  photo and frame loop exactly as with no focus, and leaves the hover block exactly as
  with no focus when \<open>hoveredId\<close> is null or a photo id. A \<open>hoveredId\<close> outside the photo
  ids leaves the photo and frame loop exactly as with no hover; in the hover block it
  does nothing when the hover mesh is not mounted and hides the outline when it equals
  \<open>focusId\<close>, and otherwise the block throws a \<open>TypeError\<close>.
\<close>

theorem invalid_selection_behaviour:
  assumes "int (length photos) = PHOTO_COUNT" and "\<not> validId f" and "\<not> validId h"
  shows "photosBlock e (Some f) hov photos st = photosBlock e None hov photos st \<and>
    photosBlock e foc (Some h) photos st = photosBlock e foc None photos st \<and>
    photosBlock e (Some f) (Some h) photos st = photosBlock e None None photos st \<and>
    hoverBlock e (Some f) None photos hm = hoverBlock e None None photos hm \<and>
    (validId k \<longrightarrow>
       hoverBlock e (Some f) (Some k) photos hm = hoverBlock e None (Some k) photos hm) \<and>
    hoverBlock e foc (Some h) photos None = Inr None \<and>
    hoverBlock e foc (Some h) photos (Some m) =
      (if foc = Some h then Inr (Some (m\<lparr>visible := False\<rparr>)) else Inl TypeError)"
proof -
  have a: "photosBlock e (Some f) hov photos st = photosBlock e None hov photos st" for hov
    by (rule photosBlock_invalid_focus [OF assms(1,2)])
  have b: "photosBlock e foc (Some h) photos st = photosBlock e foc None photos st" for foc
    by (rule photosBlock_invalid_hover [OF assms(1,3)])
  have c: "photosBlock e (Some f) (Some h) photos st = photosBlock e None None photos st"
    by (simp only: a b)
  have d: "hoverBlock e (Some f) None photos hm = hoverBlock e None None photos hm"
    by (rule hoverBlock_invalid_focus(1) [OF assms(2)])
  have d': "validId k \<longrightarrow>
       hoverBlock e (Some f) (Some k) photos hm = hoverBlock e None (Some k) photos hm"
    using hoverBlock_invalid_focus(2) [OF assms(2)] by blast
  have g: "hoverBlock e foc (Some h) photos None = Inr None"
    by (rule hoverBlock_invalid_hover(1) [OF assms(1,3)])
  have g': "hoverBlock e foc (Some h) photos (Some m) =
      (if foc = Some h then Inr (Some (m\<lparr>visible := False\<rparr>)) else Inl TypeError)"
    by (rule hoverBlock_invalid_hover(2) [OF assms(1,3)])
  from a [of hov] b [of foc] c d d' g g' show ?thesis by (intro conjI)
qed

theorem invalid_selection_behaviour_witness:
  "photosBlock 1 (Some 25) (Some (- 1)) samplePhotos (sampleMesh, Some [], Some [])
     = photosBlock 1 None None samplePhotos (sampleMesh, Some [], Some []) \<and>
   hoverBlock 1 (Some 25) (Some 3) samplePhotos (Some sampleMesh)
     = hoverBlock 1 None (Some 3) samplePhotos (Some sampleMesh) \<and>
   hoverBlock 1 (Some 25) (Some (- 1)) samplePhotos (Some sampleMesh) = Inl TypeError \<and>
   hoverBlock 1 (Some (- 1)) (Some (- 1)) samplePhotos (Some sampleMesh)
     = Inr (Some (sampleMesh\<lparr>visible := False\<rparr>))"
proof -
  have v: "\<not> validId 25" "\<not> validId (- 1)" "validId 3"
    by (simp_all add: validId_def PHOTO_COUNT_def)
  note w = invalid_selection_behaviour [OF length_samplePhotos v(1) v(2)]
  note w3 = w [THEN conjunct2, THEN conjunct2, THEN conjunct1]
  note w5 = w [THEN conjunct2, THEN conjunct2, THEN conjunct2, THEN conjunct2, THEN conjunct1]
  note w7 = w [THEN conjunct2, THEN conjunct2, THEN conjunct2, THEN conjunct2, THEN conjunct2,
      THEN conjunct2]
  have 1: "photosBlock 1 (Some 25) (Some (- 1)) samplePhotos (sampleMesh, Some [], Some [])
     = photosBlock 1 None None samplePhotos (sampleMesh, Some [], Some [])"
    by (rule w3)
  have 2: "hoverBlock 1 (Some 25) (Some 3) samplePhotos (Some sampleMesh)
     = hoverBlock 1 None (Some 3) samplePhotos (Some sampleMesh)"
    by (rule w5 [THEN mp, OF v(3)])
  have "hoverBlock 1 (Some 25) (Some (- 1)) samplePhotos (Some sampleMesh)
     = (if Some 25 = Some (- 1 :: int) then Inr (Some (sampleMesh\<lparr>visible := False\<rparr>))
        else Inl TypeError)"
    by (rule w7)
  then have 3: "hoverBlock 1 (Some 25) (Some (- 1)) samplePhotos (Some sampleMesh) = Inl TypeError"
    by simp
  have "hoverBlock 1 (Some (- 1)) (Some (- 1)) samplePhotos (Some sampleMesh)
     = (if Some (- 1) = Some (- 1 :: int) then Inr (Some (sampleMesh\<lparr>visible := False\<rparr>))
        else Inl TypeError)"
    by (rule w7)
  then have 4: "hoverBlock 1 (Some (- 1)) (Some (- 1)) samplePhotos (Some sampleMesh)
     = Inr (Some (sampleMesh\<lparr>visible := False\<rparr>))"
    by simp
  from 1 2 3 4 show ?thesis by (intro conjI)
qed

end
